theory Spec2Isabelle
  imports Main "HOL-Library.Extended_Nat"
begin

section \<open>JavaScript values\<close>

text \<open>
  The program handles parsed JSON payloads and command-line strings. A value is one of
  JavaScript's: \<open>undefined\<close>, \<open>null\<close>, a boolean, a number, a string, an array or a plain
  object (a list of key/value pairs in insertion order, keys distinct as \<open>JSON.parse\<close>
  leaves them). A number is kept as its canonical rendering \<open>String(x)\<close>: the program
  only tests numbers of a payload for truthiness and splices them into text, and both
  are functions of that rendering.

  Strings are lists of code units. The model covers the code units below 256.
\<close>

datatype jsval =
    JUndefined
  | JNull
  | JBool bool
  | JNum string
  | JStr string
  | JArr "jsval list"
  | JObj "(string \<times> jsval) list"

text \<open>What the program can throw or reject with.\<close>

datatype error =
    Error string
    \<comment> \<open>\<open>Error(message)\<close>\<close>
  | UnexpectedResponse jsval
    \<comment> \<open>\<open>Error('Unexpected response:\n' + JSON.stringify(json, null, 2))\<close>, kept as the payload\<close>
  | TypeError
    \<comment> \<open>a property read on \<open>null\<close>/\<open>undefined\<close>, or a call of something that is no function\<close>
  | Rejected jsval
    \<comment> \<open>\<open>fetchJson\<close>: status other than 200, rejected with the parsed body\<close>
  | RequestError
    \<comment> \<open>\<open>fetchJson\<close>: the request's \<open>error\<close> event, or the \<open>SyntaxError\<close> of \<open>JSON.parse\<close>\<close>
  | FsError
    \<comment> \<open>\<open>fs.promises.mkdir\<close> rejected\<close>

text \<open>Truthiness (\<open>ToBoolean\<close>).\<close>

fun truthy :: "jsval \<Rightarrow> bool" where
  "truthy JUndefined = False"
| "truthy JNull = False"
| "truthy (JBool b) = b"
| "truthy (JNum s) = (s \<noteq> ''0'' \<and> s \<noteq> ''NaN'')"
| "truthy (JStr s) = (s \<noteq> [])"
| "truthy (JArr xs) = True"
| "truthy (JObj kvs) = True"

fun Array_isArray :: "jsval \<Rightarrow> bool" where
  "Array_isArray (JArr xs) = True"
| "Array_isArray v = False"

text \<open>
  Reading a property \<open>v.k\<close>, for the property names the program reads from payloads
  (\<open>items\<close>, \<open>usfm\<close>, \<open>human\<close>, \<open>audio\<close>, \<open>download_urls\<close>, \<open>format_mp3_32k\<close>,
  \<open>reference\<close>): none of them is inherited from a prototype, so a read gives the own
  property of an object and \<open>undefined\<close> on every other value, and throws on \<open>null\<close> and
  \<open>undefined\<close>.
\<close>

fun getprop :: "jsval \<Rightarrow> string \<Rightarrow> error + jsval" where
  "getprop JUndefined k = Inl TypeError"
| "getprop JNull k = Inl TypeError"
| "getprop (JObj kvs) k = (case map_of kvs k of Some v \<Rightarrow> Inr v | None \<Rightarrow> Inr JUndefined)"
| "getprop v k = Inr JUndefined"

section \<open>Strings and numbers\<close>

definition is_digit :: "char \<Rightarrow> bool" where
  "is_digit c = (48 \<le> (of_char c :: nat) \<and> (of_char c :: nat) \<le> 57)"

text \<open>The class \<open>\s\<close> of a regular expression, on code units below 256.\<close>

definition is_space :: "char \<Rightarrow> bool" where
  "is_space c = ((of_char c :: nat) \<in> set [9, 10, 11, 12, 13, 32, 160])"

text \<open>\<open>s.split(c)\<close> for a one-character separator.\<close>

function js_split :: "char \<Rightarrow> string \<Rightarrow> string list" where
  "js_split c s =
     (case dropWhile (\<lambda>x. x \<noteq> c) s of
        [] \<Rightarrow> [s]
      | _ # rest \<Rightarrow> takeWhile (\<lambda>x. x \<noteq> c) s # js_split c rest)"
  by pat_completeness auto
termination
proof (relation "measure (\<lambda>(c, s). length s)")
  show "wf (measure (\<lambda>(c, s). length s))" by simp
next
  fix c :: char and s :: string and x rest
  assume "dropWhile (\<lambda>x. x \<noteq> c) s = x # rest"
  then have "length rest < length (dropWhile (\<lambda>x. x \<noteq> c) s)" by simp
  also have "\<dots> \<le> length s" by (rule length_dropWhile_le)
  finally show "((c, rest), (c, s)) \<in> measure (\<lambda>(c, s). length s)" by simp
qed

declare js_split.simps [simp del]

text \<open>
  \<open>Number(s)\<close> for a string of decimal digits, the only strings the program passes to
  it: the double nearest to the decimal value, ties to the even mantissa, and
  \<open>Infinity\<close> from \<open>2^1024 - 2^970\<close> on. Numbers of this kind, the non-negative
  integral doubles and \<open>Infinity\<close>, are values of \<^typ>\<open>enat\<close>.
\<close>

definition decimal_value :: "string \<Rightarrow> nat" where
  "decimal_value s = foldl (\<lambda>n c. 10 * n + ((of_char c :: nat) - 48)) 0 s"

fun bitlen :: "nat \<Rightarrow> nat" where
  "bitlen n = (if n = 0 then 0 else Suc (bitlen (n div 2)))"

declare bitlen.simps [simp del]

definition round_to_double :: "nat \<Rightarrow> enat" where
  "round_to_double n =
     (if n < 2 ^ 53 then enat n
      else
        let e = bitlen n - 53;
            q = n div 2 ^ e;
            r = n mod 2 ^ e;
            half = 2 ^ (e - 1);
            q' = (if half < r \<or> (r = half \<and> odd q) then q + 1 else q);
            v = q' * 2 ^ e
        in if 2 ^ 1024 \<le> v then \<infinity> else enat v)"

definition Number :: "string \<Rightarrow> enat" where
  "Number s = round_to_double (decimal_value s)"

section \<open>The process and its environment\<close>

text \<open>
  The mutable state of a run: the module variable \<open>bookListCache\<close> (initially \<open>null\<close>),
  and what the run has done to the outside: the URLs requested with \<open>https.get\<close>, the
  lines written with \<open>console.log\<close> and \<open>console.error\<close>, and the directories made.
\<close>

record world =
  bookListCache :: jsval
  requests :: "string list"
  stdout :: "string list"
  stderr :: "string list"
  dirs :: "string list"

definition initial_world :: world where
  "initial_world =
     \<lparr>bookListCache = JNull, requests = [], stdout = [], stderr = [], dirs = []\<rparr>"

text \<open>
  The remote side: what \<open>fetchJson(url)\<close> settles with, given the requests made before.
  \<open>Inr json\<close> is a response of status 200 whose body parsed to \<open>json\<close>.
\<close>

type_synonym network = "string list \<Rightarrow> string \<Rightarrow> error + jsval"

text \<open>The two console functions a caller can pass as \<open>logFn\<close>.\<close>

datatype logFn = console_log | console_error

fun logLine :: "logFn \<Rightarrow> string \<Rightarrow> world \<Rightarrow> world" where
  "logLine console_log l w = w\<lparr>stdout := stdout w @ [l]\<rparr>"
| "logLine console_error l w = w\<lparr>stderr := stderr w @ [l]\<rparr>"

definition fetchJson :: "network \<Rightarrow> string \<Rightarrow> world \<Rightarrow> (error + jsval) \<times> world" where
  "fetchJson net url w = (net (requests w) url, w\<lparr>requests := requests w @ [url]\<rparr>)"

definition validateResponseHasItems :: "jsval \<Rightarrow> error + unit" where
  "validateResponseHasItems json =
     (case getprop json ''items'' of
        Inl e \<Rightarrow> Inl e
      | Inr items \<Rightarrow>
          if Array_isArray items then Inr () else Inl (UnexpectedResponse json))"

section \<open>Chapter ranges\<close>

text \<open>The test \<open>chapterArg.match(/^\d+(-\d+)?$/)\<close>: digits, then optionally a dash and digits.\<close>

definition chapter_regex_match :: "string \<Rightarrow> bool" where
  "chapter_regex_match s =
     (let ds = takeWhile is_digit s; rest = dropWhile is_digit s
      in ds \<noteq> [] \<and>
         (case rest of
            [] \<Rightarrow> True
          | c # ds2 \<Rightarrow> c = CHR ''-'' \<and> ds2 \<noteq> [] \<and> list_all is_digit ds2))"

text \<open>
  \<open>getChapterRange(translationId, bookId, chapterArg)\<close>. The argument is \<open>null\<close>
  (\<open>None\<close>) or a string of the command line; \<open>!chapterArg\<close> holds for \<open>null\<close> and for the
  empty string. The result is the array \<open>result\<close>. When the split gave one part,
  \<open>result[1]\<close> is \<open>undefined\<close>: it is falsy, so nothing is compared, and the assignment
  \<open>result[1] = result[1] || result[0]\<close> appends the start. When it gave more, \<open>result[1]\<close>
  is a number, falsy when it is 0. \<open>split\<close> gives at least one part, so the array is
  never empty.
\<close>

definition getChapterRange ::
  "network \<Rightarrow> string \<Rightarrow> string \<Rightarrow> string option \<Rightarrow> world \<Rightarrow> (error + enat list) \<times> world" where
  "getChapterRange net translationId bookId chapterArg w =
     (if chapterArg = None \<or> chapterArg = Some [] then
        let w1 = logLine console_log (''Fetching chapters for '' @ bookId) w;
            url = ''https://www.bible.com/json/bible/books/'' @ translationId @ ''/'' @ bookId
                    @ ''/chapters'';
            (r, w2) = fetchJson net url w1
        in case r of
             Inl e \<Rightarrow> (Inl e, w2)
           | Inr json \<Rightarrow>
               (case validateResponseHasItems json of
                  Inl e \<Rightarrow> (Inl e, w2)
                | Inr _ \<Rightarrow>
                    (case getprop json ''items'' of
                       Inr (JArr items) \<Rightarrow> (Inr [1, enat (length items)], w2)
                     | _ \<Rightarrow> (Inl TypeError, w2)))
      else
        let arg = the chapterArg in
        if \<not> chapter_regex_match arg then
          (Inl (Error ''Chapter must be a number or a range (e.g. 3-5)''), w)
        else
          (case map Number (js_split CHR ''-'' arg) of
             [] \<Rightarrow> (Inr [], w)
           | [r0] \<Rightarrow> (Inr [r0, r0], w)
           | r0 # r1 # others \<Rightarrow>
               if r1 \<noteq> 0 \<and> r1 \<le> r0 then (Inl (Error (''Invalid range: '' @ arg)), w)
               else (Inr (r0 # (if r1 \<noteq> 0 then r1 else r0) # others), w)))"

section \<open>Text produced by the program\<close>

text \<open>
  \<open>ToString\<close>, as a template literal applies it. An array joins its elements with
  commas, \<open>null\<close> and \<open>undefined\<close> elements giving the empty string. A plain object gives
  \<open>[object Object]\<close>, unless the payload gave it a \<open>toString\<close> property of its own:
  that is no function, and the conversion throws.
\<close>

fun join_with :: "string \<Rightarrow> string list \<Rightarrow> string" where
  "join_with sep [] = []"
| "join_with sep [s] = s"
| "join_with sep (s # t # ss) = s @ sep @ join_with sep (t # ss)"

fun ToString :: "jsval \<Rightarrow> error + string"
  and ToString_elements :: "jsval list \<Rightarrow> error + string list" where
  "ToString JUndefined = Inr ''undefined''"
| "ToString JNull = Inr ''null''"
| "ToString (JBool b) = Inr (if b then ''true'' else ''false'')"
| "ToString (JNum s) = Inr s"
| "ToString (JStr s) = Inr s"
| "ToString (JArr xs) =
     (case ToString_elements xs of Inl e \<Rightarrow> Inl e | Inr ss \<Rightarrow> Inr (join_with '','' ss))"
| "ToString (JObj kvs) =
     (if map_of kvs ''toString'' = None then Inr ''[object Object]'' else Inl TypeError)"
| "ToString_elements [] = Inr []"
| "ToString_elements (x # xs) =
     (case (case x of JUndefined \<Rightarrow> Inr [] | JNull \<Rightarrow> Inr [] | _ \<Rightarrow> ToString x) of
        Inl e \<Rightarrow> Inl e
      | Inr s \<Rightarrow> (case ToString_elements xs of Inl e \<Rightarrow> Inl e | Inr ss \<Rightarrow> Inr (s # ss)))"

text \<open>\<open>String(n)\<close> for an array index or a count: its decimal digits.\<close>

definition digit_char :: "nat \<Rightarrow> char" where
  "digit_char d = char_of (48 + d)"

fun String_nat :: "nat \<Rightarrow> string" where
  "String_nat n =
     (if n < 10 then [digit_char n] else String_nat (n div 10) @ [digit_char (n mod 10)])"

declare String_nat.simps [simp del]

text \<open>\<open>s.padStart(n, c)\<close> for a one-character filler.\<close>

definition padStart :: "nat \<Rightarrow> char \<Rightarrow> string \<Rightarrow> string" where
  "padStart n c s = replicate (n - length s) c @ s"

text \<open>\<open>s.startsWith(p)\<close>.\<close>

definition startsWith :: "string \<Rightarrow> string \<Rightarrow> bool" where
  "startsWith s p = (take (length p) s = p)"

text \<open>\<open>s.replace(/\s+/g, '_')\<close>: every maximal run of whitespace becomes one underscore.\<close>

function replace_whitespace :: "string \<Rightarrow> string" where
  "replace_whitespace [] = []"
| "replace_whitespace (c # cs) =
     (if is_space c then CHR ''_'' # replace_whitespace (dropWhile is_space cs)
      else c # replace_whitespace cs)"
  by pat_completeness auto
termination
proof (relation "measure length")
  show "wf (measure length)" by simp
next
  fix c :: char and cs :: string
  have "length (dropWhile is_space cs) \<le> length cs" by (rule length_dropWhile_le)
  then show "(dropWhile is_space cs, c # cs) \<in> measure length" by simp
next
  fix c :: char and cs :: string
  show "(cs, c # cs) \<in> measure length" by simp
qed

section \<open>The book list\<close>

text \<open>
  \<open>fetchBookList(translationId)\<close>. The translation id is the text that is spliced into
  the URL. \<open>bookListCache\<close> is \<open>null\<close> or an array, and an array is truthy even when it
  is empty.
\<close>

definition fetchBookList :: "network \<Rightarrow> string \<Rightarrow> world \<Rightarrow> (error + jsval) \<times> world" where
  "fetchBookList net translationId w =
     (if truthy (bookListCache w) then (Inr (bookListCache w), w)
      else
        let w1 = logLine console_log ''Fetching books'' w;
            url = ''https://www.bible.com/json/bible/books/'' @ translationId;
            (r, w2) = fetchJson net url w1
        in case r of
             Inl e \<Rightarrow> (Inl e, w2)
           | Inr json \<Rightarrow>
               (case validateResponseHasItems json of
                  Inl e \<Rightarrow> (Inl e, w2)
                | Inr _ \<Rightarrow>
                    (case getprop json ''items'' of
                       Inl e \<Rightarrow> (Inl e, w2)
                     | Inr items \<Rightarrow> (Inr items, w2\<lparr>bookListCache := items\<rparr>))))"

text \<open>The line \<open>`${item.usfm}:\t${item.human}`\<close>.\<close>

definition bookLine :: "jsval \<Rightarrow> error + string" where
  "bookLine item =
     (case getprop item ''usfm'' of
        Inl e \<Rightarrow> Inl e
      | Inr u \<Rightarrow>
          (case ToString u of
             Inl e \<Rightarrow> Inl e
           | Inr us \<Rightarrow>
               (case getprop item ''human'' of
                  Inl e \<Rightarrow> Inl e
                | Inr h \<Rightarrow>
                    (case ToString h of
                       Inl e \<Rightarrow> Inl e
                     | Inr hs \<Rightarrow> Inr (us @ '':'' @ [CHR 0x09] @ hs)))))"

text \<open>\<open>items.forEach(item => logFn(...))\<close>: a line per item, in order, until one throws.\<close>

fun forEach_logLine :: "logFn \<Rightarrow> jsval list \<Rightarrow> world \<Rightarrow> (error + unit) \<times> world" where
  "forEach_logLine logFn [] w = (Inr (), w)"
| "forEach_logLine logFn (item # rest) w =
     (case bookLine item of
        Inl e \<Rightarrow> (Inl e, w)
      | Inr l \<Rightarrow> forEach_logLine logFn rest (logLine logFn l w))"

definition printBookList ::
  "network \<Rightarrow> string \<Rightarrow> logFn \<Rightarrow> world \<Rightarrow> (error + unit) \<times> world" where
  "printBookList net translationId logFn w =
     (let (r, w1) = fetchBookList net translationId w
      in case r of
           Inl e \<Rightarrow> (Inl e, w1)
         | Inr (JArr items) \<Rightarrow> forEach_logLine logFn items w1
         | Inr _ \<Rightarrow> (Inl TypeError, w1))"

text \<open>
  \<open>items.findIndex(item => item.usfm === bookId)\<close>: the first index whose item has the
  string \<open>bookId\<close> as its \<open>usfm\<close>, \<open>None\<close> for \<open>-1\<close>. Reading \<open>usfm\<close> from a \<open>null\<close> item throws.
\<close>

fun findIndex_usfm :: "string \<Rightarrow> jsval list \<Rightarrow> error + nat option" where
  "findIndex_usfm bookId [] = Inr None"
| "findIndex_usfm bookId (item # rest) =
     (case getprop item ''usfm'' of
        Inl e \<Rightarrow> Inl e
      | Inr u \<Rightarrow>
          if u = JStr bookId then Inr (Some 0)
          else
            (case findIndex_usfm bookId rest of
               Inl e \<Rightarrow> Inl e
             | Inr None \<Rightarrow> Inr None
             | Inr (Some i) \<Rightarrow> Inr (Some (Suc i))))"

text \<open>
  The local file system: whether \<open>fs.promises.mkdir(dirname, {recursive: true})\<close> fulfils.
\<close>

type_synonym filesystem = "string \<Rightarrow> bool"

text \<open>
  \<open>mkdir(translationId, bookId, canonical)\<close>. \<open>human.replace\<close> is a function only when
  \<open>human\<close> is a string.
\<close>

definition mkdir ::
  "network \<Rightarrow> filesystem \<Rightarrow> string \<Rightarrow> string \<Rightarrow> bool \<Rightarrow> world \<Rightarrow> (error + string) \<times> world" where
  "mkdir net fs translationId bookId canonical w =
     (let (r, w1) = fetchBookList net translationId w
      in case r of
           Inl e \<Rightarrow> (Inl e, w1)
         | Inr (JArr items) \<Rightarrow>
             (case findIndex_usfm bookId items of
                Inl e \<Rightarrow> (Inl e, w1)
              | Inr None \<Rightarrow>
                  let (p, w2) = printBookList net translationId console_error w1
                  in (case p of
                        Inl e \<Rightarrow> (Inl e, w2)
                      | Inr _ \<Rightarrow> (Inl (Error (''Did not find book id: '' @ bookId)), w2))
              | Inr (Some index) \<Rightarrow>
                  (case getprop (items ! index) ''human'' of
                     Inl e \<Rightarrow> (Inl e, w1)
                   | Inr (JStr human) \<Rightarrow>
                       let dirname0 = replace_whitespace human;
                           dirname =
                             (if canonical
                              then padStart 2 CHR ''0'' (String_nat (index + 1)) @ ''-'' @ dirname0
                              else dirname0);
                           w2 = logLine console_log (''Making directory '' @ dirname) w1
                       in if fs dirname then (Inr dirname, w2\<lparr>dirs := dirs w2 @ [dirname]\<rparr>)
                          else (Inl FsError, w2)
                   | Inr _ \<Rightarrow> (Inl TypeError, w1)))
         | Inr _ \<Rightarrow> (Inl TypeError, w1))"

section \<open>Chapter metadata\<close>

definition validateMetadataResponse :: "jsval \<Rightarrow> error + unit" where
  "validateMetadataResponse json =
     (case getprop json ''audio'' of
        Inl e \<Rightarrow> Inl e
      | Inr (JArr []) \<Rightarrow> Inl (UnexpectedResponse json)
      | Inr (JArr (audio0 # _)) \<Rightarrow>
          (case getprop audio0 ''download_urls'' of
             Inl e \<Rightarrow> Inl e
           | Inr download_urls \<Rightarrow>
               if \<not> truthy download_urls then Inl (UnexpectedResponse json)
               else
                 (case getprop download_urls ''format_mp3_32k'' of
                    Inl e \<Rightarrow> Inl e
                  | Inr format_mp3_32k \<Rightarrow>
                      if \<not> truthy format_mp3_32k then Inl (UnexpectedResponse json)
                      else
                        (case getprop json ''reference'' of
                           Inl e \<Rightarrow> Inl e
                         | Inr reference \<Rightarrow>
                             if \<not> truthy reference then Inl (UnexpectedResponse json)
                             else
                               (case getprop reference ''human'' of
                                  Inl e \<Rightarrow> Inl e
                                | Inr human \<Rightarrow>
                                    if \<not> truthy human then Inl (UnexpectedResponse json)
                                    else Inr ()))))
      | Inr _ \<Rightarrow> Inl (UnexpectedResponse json))"

record metadata =
  audioUrl :: string
  chapterName :: jsval

text \<open>
  \<open>fetchMetadata(translationId, bookId, chapter)\<close>. The chapter is the text of the
  chapter number, as the template literals splice it. \<open>audioUrl.startsWith\<close> is a
  function only when the URL is a string.
\<close>

definition fetchMetadata ::
  "network \<Rightarrow> string \<Rightarrow> string \<Rightarrow> string \<Rightarrow> world \<Rightarrow> (error + metadata) \<times> world" where
  "fetchMetadata net translationId bookId chapter w =
     (let metaUrl = ''https://nodejs.bible.com/api/bible/chapter/3.1?'' @
                    ''id='' @ translationId @ ''&reference='' @ bookId @ ''.'' @ chapter;
          w1 = logLine console_log (''Fetching metadata for '' @ bookId @ ''.'' @ chapter) w;
          (r, w2) = fetchJson net metaUrl w1
      in case r of
           Inl e \<Rightarrow> (Inl e, w2)
         | Inr json \<Rightarrow>
             (case validateMetadataResponse json of
                Inl e \<Rightarrow> (Inl e, w2)
              | Inr _ \<Rightarrow>
                  (case getprop json ''reference'' of
                     Inl e \<Rightarrow> (Inl e, w2)
                   | Inr reference \<Rightarrow>
                       (case getprop reference ''human'' of
                          Inl e \<Rightarrow> (Inl e, w2)
                        | Inr human \<Rightarrow>
                            (case getprop json ''audio'' of
                               Inr (JArr (audio0 # _)) \<Rightarrow>
                                 (case getprop audio0 ''download_urls'' of
                                    Inl e \<Rightarrow> (Inl e, w2)
                                  | Inr download_urls \<Rightarrow>
                                      (case getprop download_urls ''format_mp3_32k'' of
                                         Inr (JStr url) \<Rightarrow>
                                           (Inr \<lparr>audioUrl =
                                                   (if startsWith url ''//'' then ''https:'' @ url
                                                    else url),
                                                 chapterName = human\<rparr>, w2)
                                       | _ \<Rightarrow> (Inl TypeError, w2)))
                             | _ \<Rightarrow> (Inl TypeError, w2))))))"

section \<open>Notions of the specification\<close>

text \<open>
  The grammar of a chapter expression: a single unsigned integer, or a range \<open>N-M\<close> of
  two unsigned integers. The unsigned integer before the dash has no dash in it, so the
  first dash is the only place where a range can split.
\<close>

definition unsigned_integer :: "string \<Rightarrow> bool" where
  "unsigned_integer s = (s \<noteq> [] \<and> list_all is_digit s)"

definition range_expr :: "string \<Rightarrow> bool" where
  "range_expr s =
     (case dropWhile (\<lambda>c. c \<noteq> CHR ''-'') s of
        [] \<Rightarrow> False
      | _ # b \<Rightarrow> unsigned_integer (takeWhile (\<lambda>c. c \<noteq> CHR ''-'') s) \<and> unsigned_integer b)"

text \<open>
  The invariant the specification gives a chapter range of a book: \<open>1 <= start <= end <= total\<close>,
  with the book's count of chapters as the total.
\<close>

definition ChapterRange_invariant :: "enat \<Rightarrow> enat \<Rightarrow> nat \<Rightarrow> bool" where
  "ChapterRange_invariant start end' chapters =
     (1 \<le> start \<and> start \<le> end' \<and> end' \<le> enat chapters)"

text \<open>A book of the catalog: an item with a short code and a human name, both strings.\<close>

definition book_of :: "jsval \<Rightarrow> (string \<times> string) option" where
  "book_of item =
     (case item of
        JObj kvs \<Rightarrow>
          (case (map_of kvs ''usfm'', map_of kvs ''human'') of
             (Some (JStr code), Some (JStr name)) \<Rightarrow> Some (code, name)
           | _ \<Rightarrow> None)
      | _ \<Rightarrow> None)"

text \<open>The line that lists a book.\<close>

definition listed :: "string \<times> string \<Rightarrow> string" where
  "listed b = fst b @ '':'' @ [CHR 0x09] @ snd b"

text \<open>
  Whitespace collapsed to underscores, one character at a time: a whitespace character
  that another one follows is dropped, the last of a run becomes the underscore.
\<close>

fun underscore_runs :: "string \<Rightarrow> string" where
  "underscore_runs [] = []"
| "underscore_runs [c] = (if is_space c then ''_'' else [c])"
| "underscore_runs (c # d # s) =
     (if is_space c then (if is_space d then underscore_runs (d # s)
                          else CHR ''_'' # underscore_runs (d # s))
      else c # underscore_runs (d # s))"

text \<open>A 1-based position in at least two digits.\<close>

definition two_digits :: "nat \<Rightarrow> string" where
  "two_digits n = (if n < 10 then [CHR ''0'', digit_char n] else String_nat n)"

text \<open>
  The shape of a metadata response: the value under the bitrate/format key of the
  download-URL map of the first audio entry, and the human name of the reference, where
  the response is an object that has them.
\<close>

definition first_audio_url :: "jsval \<Rightarrow> jsval option" where
  "first_audio_url json =
     (case json of
        JObj kvs \<Rightarrow>
          (case map_of kvs ''audio'' of
             Some (JArr (JObj entry # _)) \<Rightarrow>
               (case map_of entry ''download_urls'' of
                  Some (JObj urls) \<Rightarrow> map_of urls ''format_mp3_32k''
                | _ \<Rightarrow> None)
           | _ \<Rightarrow> None)
      | _ \<Rightarrow> None)"

definition reference_human :: "jsval \<Rightarrow> jsval option" where
  "reference_human json =
     (case json of
        JObj kvs \<Rightarrow>
          (case map_of kvs ''reference'' of
             Some (JObj reference) \<Rightarrow> map_of reference ''human''
           | _ \<Rightarrow> None)
      | _ \<Rightarrow> None)"

text \<open>The first audio entry of a response, when its audio list is a non-empty array.\<close>

definition first_audio_entry :: "jsval \<Rightarrow> jsval option" where
  "first_audio_entry json =
     (case json of
        JObj kvs \<Rightarrow>
          (case map_of kvs ''audio'' of Some (JArr (entry # _)) \<Rightarrow> Some entry | _ \<Rightarrow> None)
      | _ \<Rightarrow> None)"

text \<open>
  The download URL of a response that has one: a non-empty string under the key. The
  chapter name of a response that has one: a truthy human name of the reference.
\<close>

definition audio_url_string :: "jsval \<Rightarrow> string option" where
  "audio_url_string json =
     (case first_audio_url json of
        Some (JStr url) \<Rightarrow> (if url = [] then None else Some url)
      | _ \<Rightarrow> None)"

definition chapter_name :: "jsval \<Rightarrow> jsval option" where
  "chapter_name json =
     (case reference_human json of
        Some human \<Rightarrow> (if truthy human then Some human else None)
      | None \<Rightarrow> None)"

section \<open>An example environment\<close>

definition example_books :: jsval where
  "example_books =
     JObj [(''items'', JArr
       [JObj [(''usfm'', JStr ''GEN''), (''human'', JStr ''Genesis'')],
        JObj [(''usfm'', JStr ''EXO''), (''human'', JStr ''Exodus'')],
        JObj [(''usfm'', JStr ''LEV''), (''human'', JStr ''Leviticus'')],
        JObj [(''usfm'', JStr ''1SA''), (''human'', JStr ''1 Samuel'')]])]"

definition example_books_other :: jsval where
  "example_books_other =
     JObj [(''items'', JArr
       [JObj [(''usfm'', JStr ''GEN''), (''human'', JStr ''1 Mose'')],
        JObj [(''usfm'', JStr ''EXO''), (''human'', JStr ''2 Mose'')]])]"

definition example_chapters :: jsval where
  "example_chapters =
     JObj [(''items'', JArr
       [JObj [(''usfm'', JStr ''RUT.1''), (''human'', JStr ''1'')],
        JObj [(''usfm'', JStr ''RUT.2''), (''human'', JStr ''2'')],
        JObj [(''usfm'', JStr ''RUT.3''), (''human'', JStr ''3'')],
        JObj [(''usfm'', JStr ''RUT.4''), (''human'', JStr ''4'')]])]"

definition example_metadata :: "string \<Rightarrow> jsval" where
  "example_metadata url =
     JObj [(''reference'', JObj [(''human'', JStr ''Psalms 25'')]),
           (''audio'', JArr [JObj [(''download_urls'', JObj [(''format_mp3_32k'', JStr url)])]])]"

text \<open>A response whose second audio entry has no download URLs, and one with no reference.\<close>

definition example_metadata_bare_second :: jsval where
  "example_metadata_bare_second =
     JObj [(''reference'', JObj [(''human'', JStr ''Psalms 25'')]),
           (''audio'', JArr
              [JObj [(''download_urls'',
                      JObj [(''format_mp3_32k'', JStr ''//cdn.example/PSA.25.mp3'')])],
               JObj []])]"

definition example_metadata_no_reference :: jsval where
  "example_metadata_no_reference =
     JObj [(''audio'', JArr
              [JObj [(''download_urls'',
                      JObj [(''format_mp3_32k'', JStr ''//cdn.example/PSA.25.mp3'')])]])]"

definition example_net :: network where
  "example_net history url =
     (if url = ''https://www.bible.com/json/bible/books/100'' then Inr example_books
      else if url = ''https://www.bible.com/json/bible/books/101'' then Inr example_books_other
      else if url = ''https://www.bible.com/json/bible/books/100/RUT/chapters''
        then Inr example_chapters
      else if url = ''https://nodejs.bible.com/api/bible/chapter/3.1?id=100&reference=PSA.25''
        then Inr (example_metadata ''//cdn.example/PSA.25.mp3'')
      else Inl RequestError)"

text \<open>A remote side that answers every request with one payload.\<close>

definition always :: "jsval \<Rightarrow> network" where
  "always json history url = Inr json"

definition any_directory :: filesystem where
  "any_directory dirname = True"

section \<open>Chapter expressions\<close>

lemma dash_not_digit: "\<not> is_digit CHR ''-''"
  by (simp add: is_digit_def)

lemma digits_no_dash: "list_all is_digit s \<Longrightarrow> CHR ''-'' \<notin> set s"
  using dash_not_digit by (auto simp: list_all_iff)

lemma js_split_no_sep: "c \<notin> set s \<Longrightarrow> js_split c s = [s]"
proof -
  assume "c \<notin> set s"
  then have d: "dropWhile (\<lambda>x. x \<noteq> c) s = []" by (simp add: dropWhile_eq_Nil_conv) blast
  show ?thesis by (subst js_split.simps) (simp only: d list.case)
qed

lemma js_split_sep: "c \<notin> set a \<Longrightarrow> js_split c (a @ c # b) = a # js_split c b"
proof -
  assume h: "c \<notin> set a"
  then have d: "dropWhile (\<lambda>x. x \<noteq> c) (a @ c # b) = c # b"
    by (subst dropWhile_append2) auto
  from h have t: "takeWhile (\<lambda>x. x \<noteq> c) (a @ c # b) = a"
    by (subst takeWhile_append2) auto
  show ?thesis by (subst js_split.simps) (simp add: d t)
qed

text \<open>A range expression is two unsigned integers around a dash.\<close>

lemma range_expr_iff:
  "range_expr s \<longleftrightarrow> (\<exists>a b. s = a @ ''-'' @ b \<and> unsigned_integer a \<and> unsigned_integer b)"
proof
  assume r: "range_expr s"
  then obtain x b where d: "dropWhile (\<lambda>c. c \<noteq> CHR ''-'') s = x # b"
    by (auto simp: range_expr_def split: list.splits)
  have "x = hd (dropWhile (\<lambda>c. c \<noteq> CHR ''-'') s)" using d by simp
  then have x: "x = CHR ''-''" using hd_dropWhile [of "\<lambda>c. c \<noteq> CHR ''-''" s] d by auto
  have "s = takeWhile (\<lambda>c. c \<noteq> CHR ''-'') s @ dropWhile (\<lambda>c. c \<noteq> CHR ''-'') s" by simp
  then have "s = takeWhile (\<lambda>c. c \<noteq> CHR ''-'') s @ ''-'' @ b" using d x by simp
  moreover from r d have "unsigned_integer (takeWhile (\<lambda>c. c \<noteq> CHR ''-'') s) \<and> unsigned_integer b"
    by (simp add: range_expr_def)
  ultimately show "\<exists>a b. s = a @ ''-'' @ b \<and> unsigned_integer a \<and> unsigned_integer b" by blast
next
  assume "\<exists>a b. s = a @ ''-'' @ b \<and> unsigned_integer a \<and> unsigned_integer b"
  then obtain a b where s: "s = a @ CHR ''-'' # b" and a: "unsigned_integer a" and b: "unsigned_integer b"
    by auto
  from a have n: "CHR ''-'' \<notin> set a" by (simp add: unsigned_integer_def digits_no_dash)
  from n have d: "dropWhile (\<lambda>x. x \<noteq> CHR ''-'') s = CHR ''-'' # b"
    unfolding s by (subst dropWhile_append2) auto
  from n have t: "takeWhile (\<lambda>x. x \<noteq> CHR ''-'') s = a"
    unfolding s by (subst takeWhile_append2) auto
  show "range_expr s" by (simp add: range_expr_def d t a b)
qed

text \<open>The regular expression accepts the grammar of the specification, and nothing else.\<close>

lemma chapter_regex_match_iff:
  "chapter_regex_match s \<longleftrightarrow> unsigned_integer s \<or> range_expr s"
proof
  assume m: "chapter_regex_match s"
  let ?ds = "takeWhile is_digit s" and ?rest = "dropWhile is_digit s"
  have s: "s = ?ds @ ?rest" by simp
  have ds: "list_all is_digit ?ds" by (simp add: list_all_iff) (meson set_takeWhileD)
  from m have ne: "?ds \<noteq> []" by (simp add: chapter_regex_match_def Let_def)
  show "unsigned_integer s \<or> range_expr s"
  proof (cases ?rest)
    case Nil
    then have "s = ?ds" using s by (metis append_Nil2)
    then show ?thesis using ds ne by (metis unsigned_integer_def)
  next
    case (Cons c ds2)
    with m have "c = CHR ''-''" "ds2 \<noteq> []" "list_all is_digit ds2"
      by (simp_all add: chapter_regex_match_def Let_def)
    then have "s = ?ds @ ''-'' @ ds2 \<and> unsigned_integer ?ds \<and> unsigned_integer ds2"
      using s Cons ds ne by (simp add: unsigned_integer_def)
    then show ?thesis unfolding range_expr_iff by blast
  qed
next
  assume "unsigned_integer s \<or> range_expr s"
  then show "chapter_regex_match s"
  proof
    assume u: "unsigned_integer s"
    then have t: "takeWhile is_digit s = s" and d: "dropWhile is_digit s = []"
      by (auto simp: unsigned_integer_def list_all_iff takeWhile_eq_all_conv dropWhile_eq_Nil_conv)
    from u have "s \<noteq> []" by (simp add: unsigned_integer_def)
    then show ?thesis unfolding chapter_regex_match_def Let_def t d by simp
  next
    assume "range_expr s"
    then obtain a b where s: "s = a @ CHR ''-'' # b" and a: "unsigned_integer a" and b: "unsigned_integer b"
      unfolding range_expr_iff by auto
    from a have all: "\<And>x. x \<in> set a \<Longrightarrow> is_digit x" by (simp add: unsigned_integer_def list_all_iff)
    have t: "takeWhile is_digit s = a" unfolding s
      using all dash_not_digit by (subst takeWhile_append2) auto
    have d: "dropWhile is_digit s = CHR ''-'' # b" unfolding s
      using all dash_not_digit by (subst dropWhile_append2) auto
    show ?thesis using a b by (simp add: chapter_regex_match_def t d unsigned_integer_def)
  qed
qed

text \<open>Decimal digits, written and read back.\<close>

lemma of_char_digit_char: "d < 10 \<Longrightarrow> (of_char (digit_char d) :: nat) = 48 + d"
  by (simp add: digit_char_def)

lemma is_digit_digit_char: "d < 10 \<Longrightarrow> is_digit (digit_char d)"
  by (simp add: is_digit_def of_char_digit_char)

lemma String_nat_digits: "list_all is_digit (String_nat n)"
proof (induction n rule: String_nat.induct)
  case (1 n)
  show ?case
  proof (cases "n < 10")
    case True
    then show ?thesis by (subst String_nat.simps) (simp add: is_digit_digit_char)
  next
    case False
    with 1 show ?thesis by (subst String_nat.simps) (simp add: is_digit_digit_char)
  qed
qed

lemma String_nat_not_Nil: "String_nat n \<noteq> []"
  by (subst String_nat.simps) simp

lemma unsigned_integer_String_nat: "unsigned_integer (String_nat n)"
  by (simp add: unsigned_integer_def String_nat_digits String_nat_not_Nil)

lemma decimal_value_snoc:
  "decimal_value (s @ [c]) = 10 * decimal_value s + ((of_char c :: nat) - 48)"
  by (simp add: decimal_value_def)

lemma decimal_value_String_nat: "decimal_value (String_nat n) = n"
proof (induction n rule: String_nat.induct)
  case (1 n)
  show ?case
  proof (cases "n < 10")
    case True
    then show ?thesis
      by (subst String_nat.simps) (simp add: decimal_value_def of_char_digit_char)
  next
    case False
    then have "decimal_value (String_nat (n div 10)) = n div 10" using 1 by simp
    then show ?thesis using False
      by (subst String_nat.simps) (simp add: decimal_value_snoc of_char_digit_char)
  qed
qed

lemma Number_String_nat: "n < 2 ^ 53 \<Longrightarrow> Number (String_nat n) = enat n"
  by (simp add: Number_def decimal_value_String_nat round_to_double_def)

text \<open>What \<open>getChapterRange\<close> does with a single number and with a range.\<close>

lemma getChapterRange_single:
  assumes "unsigned_integer a"
  shows "getChapterRange net t bk (Some a) w = (Inr [Number a, Number a], w)"
proof -
  from assms have ne: "a \<noteq> []" by (simp add: unsigned_integer_def)
  from assms have m: "chapter_regex_match a" by (simp add: chapter_regex_match_iff)
  from assms have sp: "js_split CHR ''-'' a = [a]"
    by (simp add: unsigned_integer_def digits_no_dash js_split_no_sep)
  show ?thesis by (simp add: getChapterRange_def ne m sp)
qed

lemma getChapterRange_range:
  assumes "unsigned_integer a" and "unsigned_integer b"
  shows "getChapterRange net t bk (Some (a @ CHR ''-'' # b)) w =
     (if Number b \<noteq> 0 \<and> Number b \<le> Number a
      then Inl (Error (''Invalid range: '' @ a @ CHR ''-'' # b))
      else Inr [Number a, if Number b = 0 then Number a else Number b], w)"
proof -
  have "chapter_regex_match (a @ ''-'' @ b)"
    using assms unfolding chapter_regex_match_iff range_expr_iff by blast
  then have m: "chapter_regex_match (a @ CHR ''-'' # b)" by simp
  from assms have "CHR ''-'' \<notin> set a" "CHR ''-'' \<notin> set b"
    by (simp_all add: unsigned_integer_def digits_no_dash)
  then have sp: "js_split CHR ''-'' (a @ CHR ''-'' # b) = [a, b]"
    by (simp add: js_split_sep js_split_no_sep)
  show ?thesis by (simp add: getChapterRange_def Let_def m sp)
qed

text \<open>
  For numbers \<open>N\<close> and \<open>M\<close> below \<open>2^53\<close> in decimal digits, with \<open>0 < M\<close>: the range \<open>N-M\<close>
  gives \<open>[N, M]\<close> when \<open>N < M\<close>, and the error otherwise.
\<close>

lemma getChapterRange_range_nat:
  assumes "N < 2 ^ 53" and "M < 2 ^ 53" and "0 < M"
  shows "getChapterRange net t bk (Some (String_nat N @ CHR ''-'' # String_nat M)) w =
     (if M \<le> N then Inl (Error (''Invalid range: '' @ String_nat N @ CHR ''-'' # String_nat M))
      else Inr [enat N, enat M], w)"
  using assms
  by (simp add: getChapterRange_range unsigned_integer_String_nat Number_String_nat zero_enat_def)

lemma bitlen_eq: "2 ^ k \<le> n \<Longrightarrow> n < 2 ^ Suc k \<Longrightarrow> bitlen n = Suc k"
proof (induction k arbitrary: n)
  case 0
  then have "n = Suc 0" by simp
  then show ?case by (simp add: bitlen.simps [of "Suc 0"] bitlen.simps [of 0])
next
  case (Suc k)
  then have "2 ^ k \<le> n div 2" "n div 2 < 2 ^ Suc k" by simp_all
  then have "bitlen (n div 2) = Suc k" by (rule Suc.IH)
  moreover from Suc.prems have "n \<noteq> 0" by auto
  ultimately show ?case by (subst bitlen.simps) simp
qed

text \<open>
  Beyond \<open>2^53\<close> two different numbers can be the same double: \<open>2^53 + 1\<close> is read as
  \<open>2^53\<close>, and a range between the two is refused.
\<close>

lemma round_to_double_example: "round_to_double 9007199254740993 = 9007199254740992"
proof -
  have "bitlen 9007199254740993 = Suc 53" by (rule bitlen_eq) simp_all
  then show ?thesis by (simp add: round_to_double_def Let_def numeral_eq_enat)
qed

lemma getChapterRange_beyond_double:
  "getChapterRange net t bk (Some ''9007199254740992-9007199254740993'') w
     = (Inl (Error ''Invalid range: 9007199254740992-9007199254740993''), w)"
proof -
  have a: "Number ''9007199254740992'' = 9007199254740992"
    using bitlen_eq [of 53 9007199254740992]
    by (simp add: Number_def decimal_value_def round_to_double_def Let_def numeral_eq_enat)
  have b: "Number ''9007199254740993'' = 9007199254740992"
    using round_to_double_example by (simp add: Number_def decimal_value_def)
  have u: "unsigned_integer ''9007199254740992''" "unsigned_integer ''9007199254740993''"
    by (simp_all add: unsigned_integer_def is_digit_def)
  show ?thesis
    using getChapterRange_range [OF u, of net t bk w] by (simp add: a b)
qed

lemma getChapterRange_explicit_ordered:
  assumes "fst (getChapterRange net t bk (Some arg) w) = Inr r" and "arg \<noteq> []"
  shows "\<exists>s e. r = [s, e] \<and> s \<le> e"
proof -
  from assms have "chapter_regex_match arg"
    by (auto simp: getChapterRange_def split: if_splits)
  then consider "unsigned_integer arg" | "range_expr arg"
    unfolding chapter_regex_match_iff by blast
  then show ?thesis
  proof cases
    case 1
    then show ?thesis using assms by (auto simp: getChapterRange_single)
  next
    case 2
    then obtain a b where "arg = a @ CHR ''-'' # b" "unsigned_integer a" "unsigned_integer b"
      unfolding range_expr_iff by auto
    then show ?thesis using assms(1)
      by (auto simp: getChapterRange_range split: if_splits)
  qed
qed

lemma getChapterRange_default:
  assumes "chapterArg = None \<or> chapterArg = Some []"
    and "net (requests w)
           (''https://www.bible.com/json/bible/books/'' @ translationId @ ''/'' @ bookId
              @ ''/chapters'') = Inr json"
    and "getprop json ''items'' = Inr (JArr items)"
  shows "fst (getChapterRange net translationId bookId chapterArg w) = Inr [1, enat (length items)]"
proof -
  have v: "validateResponseHasItems json = Inr ()"
    using assms(3) by (simp add: validateResponseHasItems_def)
  show ?thesis
    using assms(1) assms(2) assms(3) v
    by (auto simp: getChapterRange_def fetchJson_def Let_def)
qed

lemma getChapterRange_default_inv:
  assumes "chapterArg = None \<or> chapterArg = Some []"
    and "fst (getChapterRange net translationId bookId chapterArg w) = Inr r"
  shows "\<exists>json items.
           net (requests w)
             (''https://www.bible.com/json/bible/books/'' @ translationId @ ''/'' @ bookId
                @ ''/chapters'') = Inr json
           \<and> getprop json ''items'' = Inr (JArr items)
           \<and> r = [1, enat (length items)]"
  using assms
  by (auto simp: getChapterRange_def fetchJson_def Let_def validateResponseHasItems_def
      split: sum.splits if_splits jsval.splits)

lemma Number_small:
  "Number ''0'' = 0" "Number ''3'' = 3" "Number ''5'' = 5" "Number ''7'' = 7"
  by (simp_all add: Number_def decimal_value_def round_to_double_def zero_enat_def
      numeral_eq_enat)

lemma unsigned_integer_small:
  "unsigned_integer ''0''" "unsigned_integer ''3''" "unsigned_integer ''5''"
  "unsigned_integer ''7''"
  by (simp_all add: unsigned_integer_def is_digit_def)

lemma example_net_chapters:
  "example_net h ''https://www.bible.com/json/bible/books/100/RUT/chapters'' = Inr example_chapters"
  by (simp add: example_net_def)

lemma example_chapters_items:
  "\<exists>items. getprop example_chapters ''items'' = Inr (JArr items) \<and> length items = 4"
  by (simp add: example_chapters_def)

text \<open>
  C1. A range \<open>N-M\<close> with \<open>M = 0\<close> is not refused: \<open>result[1]\<close> is the number 0, which is
  falsy, so the comparison with the start is skipped and the start is used as the end.
  For \<open>5-0\<close> the program returns \<open>[5, 5]\<close>. (With \<open>0 < M\<close> and numbers below \<open>2^53\<close> the
  parser does what is claimed, see \<open>getChapterRange_range_nat\<close>.)
\<close>

theorem C1_range_end_zero_accepted:
  "getChapterRange example_net ''100'' ''PSA'' (Some ''5-0'') initial_world
     = (Inr [5, 5], initial_world)"
  using getChapterRange_range [of "''5''" "''0''" example_net "''100''" "''PSA''" initial_world]
  by (simp add: unsigned_integer_small Number_small)

text \<open>
  C2 (as amended). Every range that \<open>getChapterRange\<close> returns is a pair \<open>[start, end]\<close>.
  For an explicit chapter expression it satisfies \<open>start <= end\<close> and nothing more: the
  start may be 0, and the end is never compared with the book's count of chapters, which
  is not fetched. The defaulted range is \<open>[1, total]\<close>, with the length of the fetched
  chapter list as the total, and satisfies the invariant exactly when that list is not
  empty.
\<close>

theorem C2_range_of_getChapterRange:
  assumes "fst (getChapterRange net translationId bookId chapterArg w) = Inr r"
  shows "if chapterArg = None \<or> chapterArg = Some []
         then \<exists>json items.
                net (requests w)
                  (''https://www.bible.com/json/bible/books/'' @ translationId @ ''/'' @ bookId
                     @ ''/chapters'') = Inr json
                \<and> getprop json ''items'' = Inr (JArr items)
                \<and> r = [1, enat (length items)]
                \<and> (ChapterRange_invariant 1 (enat (length items)) (length items)
                     \<longleftrightarrow> items \<noteq> [])
         else \<exists>start end'. r = [start, end'] \<and> start \<le> end'"
proof (cases "chapterArg = None \<or> chapterArg = Some []")
  case True
  from getChapterRange_default_inv [OF True assms]
  obtain json items where
    j: "net (requests w)
          (''https://www.bible.com/json/bible/books/'' @ translationId @ ''/'' @ bookId
             @ ''/chapters'') = Inr json"
       "getprop json ''items'' = Inr (JArr items)" "r = [1, enat (length items)]"
    by blast
  have "ChapterRange_invariant 1 (enat (length items)) (length items) \<longleftrightarrow> items \<noteq> []"
    by (cases items) (simp_all add: ChapterRange_invariant_def one_enat_def)
  with j True show ?thesis by auto
next
  case False
  then obtain arg where a: "chapterArg = Some arg" "arg \<noteq> []" by auto
  from getChapterRange_explicit_ordered [of net translationId bookId arg w r] assms a
  have "\<exists>start end'. r = [start, end'] \<and> start \<le> end'" by simp
  then show ?thesis by (simp only: False if_False)
qed

theorem C2_range_of_getChapterRange_witness:
  "fst (getChapterRange example_net ''100'' ''RUT'' (Some ''3-5'') initial_world) = Inr [3, 5]
   \<and> (\<exists>start end'. [3, 5 :: enat] = [start, end'] \<and> start \<le> end')
   \<and> fst (getChapterRange example_net ''100'' ''RUT'' None initial_world) = Inr [1, 4]
   \<and> (\<exists>items. getprop example_chapters ''items'' = Inr (JArr items)
         \<and> [1, 4] = [1, enat (length items)]
         \<and> ChapterRange_invariant 1 (enat (length items)) (length items))"
proof -
  have e: "fst (getChapterRange example_net ''100'' ''RUT'' (Some ''3-5'') initial_world)
      = Inr [3, 5]"
    using getChapterRange_range [of "''3''" "''5''" example_net "''100''" "''RUT''" initial_world]
    by (simp add: unsigned_integer_small Number_small)
  from C2_range_of_getChapterRange [OF e]
  have 1: "\<exists>start end'. [3, 5 :: enat] = [start, end'] \<and> start \<le> end'" by simp
  obtain items where i: "getprop example_chapters ''items'' = Inr (JArr items)" "length items = 4"
    using example_chapters_items by blast
  have "fst (getChapterRange example_net ''100'' ''RUT'' None initial_world)
          = Inr [1, enat (length items)]"
    by (rule getChapterRange_default [where json = example_chapters])
       (simp_all add: example_net_chapters i)
  with i have d: "fst (getChapterRange example_net ''100'' ''RUT'' None initial_world)
      = Inr [1, 4]"
    by (simp add: numeral_eq_enat)
  from C2_range_of_getChapterRange [OF d]
  have 2: "\<exists>items. getprop example_chapters ''items'' = Inr (JArr items)
         \<and> [1, 4] = [1, enat (length items)]
         \<and> ChapterRange_invariant 1 (enat (length items)) (length items)"
    by (auto simp: example_net_chapters numeral_eq_enat)
  from e 1 d 2 show ?thesis by blast
qed

theorem C2_counterexample:
  "fst (getChapterRange example_net ''100'' ''RUT'' (Some ''0'') initial_world) = Inr [0, 0]
   \<and> \<not> ChapterRange_invariant 0 0 4
   \<and> fst (getChapterRange example_net ''100'' ''RUT'' (Some ''7'') initial_world) = Inr [7, 7]
   \<and> \<not> ChapterRange_invariant 7 7 4"
  by (simp add: getChapterRange_single unsigned_integer_small Number_small
      ChapterRange_invariant_def)

text \<open>
  C7. Every chapter string the user supplies that is neither a single unsigned integer
  nor a range of two unsigned integers is refused with the format error, before
  anything is split, fetched or returned. A supplied expression is a non-empty string:
  the empty string is the absent expression, which \<open>!chapterArg\<close> sends to the default
  range before the format is looked at.
\<close>

theorem C7_invalid_format:
  assumes "arg \<noteq> []" and "\<not> unsigned_integer arg" and "\<not> range_expr arg"
  shows "getChapterRange net translationId bookId (Some arg) w
           = (Inl (Error ''Chapter must be a number or a range (e.g. 3-5)''), w)"
proof -
  from assms have "\<not> chapter_regex_match arg" by (simp add: chapter_regex_match_iff)
  with assms(1) show ?thesis by (simp add: getChapterRange_def)
qed

theorem C7_invalid_format_witness:
  "''3a'' \<noteq> [] \<and> \<not> unsigned_integer ''3a'' \<and> \<not> range_expr ''3a''
   \<and> getChapterRange example_net ''100'' ''RUT'' (Some ''3a'') initial_world
       = (Inl (Error ''Chapter must be a number or a range (e.g. 3-5)''), initial_world)
   \<and> \<not> unsigned_integer ''-3'' \<and> \<not> range_expr ''-3''
   \<and> getChapterRange example_net ''100'' ''RUT'' (Some ''-3'') initial_world
       = (Inl (Error ''Chapter must be a number or a range (e.g. 3-5)''), initial_world)
   \<and> \<not> unsigned_integer ''3-5-7'' \<and> \<not> range_expr ''3-5-7''
   \<and> getChapterRange example_net ''100'' ''RUT'' (Some ''3-5-7'') initial_world
       = (Inl (Error ''Chapter must be a number or a range (e.g. 3-5)''), initial_world)"
proof -
  have a: "''3a'' \<noteq> []" "\<not> unsigned_integer ''3a''" "\<not> range_expr ''3a''"
    by (simp_all add: unsigned_integer_def range_expr_def is_digit_def)
  have b: "''-3'' \<noteq> []" "\<not> unsigned_integer ''-3''" "\<not> range_expr ''-3''"
    by (simp_all add: unsigned_integer_def range_expr_def is_digit_def)
  have c: "''3-5-7'' \<noteq> []" "\<not> unsigned_integer ''3-5-7''" "\<not> range_expr ''3-5-7''"
    by (simp_all add: unsigned_integer_def range_expr_def is_digit_def)
  show ?thesis
    using a b c C7_invalid_format [OF a, of example_net "''100''" "''RUT''" initial_world]
      C7_invalid_format [OF b, of example_net "''100''" "''RUT''" initial_world]
      C7_invalid_format [OF c, of example_net "''100''" "''RUT''" initial_world]
    by simp
qed

text \<open>
  C8. With no chapter expression (\<open>null\<close>, or the empty string), and a chapter-list
  response whose \<open>items\<close> is an array of \<open>T\<close> entries, the range is \<open>[1, T]\<close>.
\<close>

theorem C8_default_range:
  assumes "chapterArg = None \<or> chapterArg = Some []"
    and "net (requests w)
           (''https://www.bible.com/json/bible/books/'' @ translationId @ ''/'' @ bookId
              @ ''/chapters'') = Inr json"
    and "getprop json ''items'' = Inr (JArr items)"
  shows "fst (getChapterRange net translationId bookId chapterArg w) = Inr [1, enat (length items)]"
  using assms by (rule getChapterRange_default)

theorem C8_default_range_witness:
  "fst (getChapterRange example_net ''100'' ''RUT'' None initial_world) = Inr [1, 4]"
proof -
  obtain items where i: "getprop example_chapters ''items'' = Inr (JArr items)" "length items = 4"
    using example_chapters_items by blast
  have "fst (getChapterRange example_net ''100'' ''RUT'' None initial_world)
          = Inr [1, enat (length items)]"
    by (rule C8_default_range [where json = example_chapters])
       (simp_all add: example_net_chapters i)
  then show ?thesis using i by (simp add: numeral_eq_enat)
qed

section \<open>The book list and its cache\<close>

lemma logLine_fields:
  "requests (logLine f l w) = requests w"
  "bookListCache (logLine f l w) = bookListCache w"
  "dirs (logLine f l w) = dirs w"
  by (cases f; simp)+

lemma fetchBookList_hit:
  "truthy (bookListCache w) \<Longrightarrow> fetchBookList net t w = (Inr (bookListCache w), w)"
  by (simp add: fetchBookList_def)

lemma fetchBookList_cached:
  assumes "fst (fetchBookList net t w) = Inr items"
  shows "bookListCache (snd (fetchBookList net t w)) = items \<and> truthy items"
proof (cases "truthy (bookListCache w)")
  case True
  with assms show ?thesis by (simp add: fetchBookList_hit)
next
  case False
  have arr: "truthy v" if "Array_isArray v" for v
    using that by (cases v) simp_all
  from False assms show ?thesis
    by (auto simp: fetchBookList_def fetchJson_def Let_def validateResponseHasItems_def arr
        split: sum.splits if_splits)
qed

lemma fetchBookList_again:
  assumes "fst (fetchBookList net t1 w) = Inr items"
  shows "fetchBookList net t2 (snd (fetchBookList net t1 w))
           = (Inr items, snd (fetchBookList net t1 w))"
  using fetchBookList_cached [OF assms]
    fetchBookList_hit [of "snd (fetchBookList net t1 w)" net t2]
  by simp

lemma fetchBookList_stderr: "stderr (snd (fetchBookList net t w)) = stderr w"
  by (simp add: fetchBookList_def fetchJson_def Let_def split: sum.splits)

lemma fetchBookList_dirs: "dirs (snd (fetchBookList net t w)) = dirs w"
  by (simp add: fetchBookList_def fetchJson_def Let_def split: sum.splits)

lemma getprop_defined:
  "json \<noteq> JNull \<Longrightarrow> json \<noteq> JUndefined \<Longrightarrow> \<exists>v. getprop json k = Inr v"
  by (cases json) (simp_all split: option.split)

text \<open>
  A first fetch whose payload is not \<open>null\<close> and has no array under \<open>items\<close> fails with the
  unexpected-response error that carries the payload, and leaves the cache as it was.
\<close>

lemma fetchBookList_unexpected:
  assumes "\<not> truthy (bookListCache w)"
    and "net (requests w) (''https://www.bible.com/json/bible/books/'' @ t) = Inr json"
    and "json \<noteq> JNull" and "json \<noteq> JUndefined"
    and "\<nexists>items. getprop json ''items'' = Inr (JArr items)"
  shows "fst (fetchBookList net t w) = Inl (UnexpectedResponse json)
         \<and> bookListCache (snd (fetchBookList net t w)) = bookListCache w"
proof -
  from assms(3) assms(4) obtain v where v: "getprop json ''items'' = Inr v"
    using getprop_defined by blast
  with assms(5) have "\<not> Array_isArray v" by (cases v) auto
  with v have "validateResponseHasItems json = Inl (UnexpectedResponse json)"
    by (simp add: validateResponseHasItems_def)
  with assms(1) assms(2) show ?thesis
    by (simp add: fetchBookList_def fetchJson_def Let_def)
qed

lemma example_fetch_100:
  "fetchBookList example_net ''100'' initial_world =
     (Inr (JArr
        [JObj [(''usfm'', JStr ''GEN''), (''human'', JStr ''Genesis'')],
         JObj [(''usfm'', JStr ''EXO''), (''human'', JStr ''Exodus'')],
         JObj [(''usfm'', JStr ''LEV''), (''human'', JStr ''Leviticus'')],
         JObj [(''usfm'', JStr ''1SA''), (''human'', JStr ''1 Samuel'')]]),
      \<lparr>bookListCache = JArr
        [JObj [(''usfm'', JStr ''GEN''), (''human'', JStr ''Genesis'')],
         JObj [(''usfm'', JStr ''EXO''), (''human'', JStr ''Exodus'')],
         JObj [(''usfm'', JStr ''LEV''), (''human'', JStr ''Leviticus'')],
         JObj [(''usfm'', JStr ''1SA''), (''human'', JStr ''1 Samuel'')]],
       requests = [''https://www.bible.com/json/bible/books/100''],
       stdout = [''Fetching books''], stderr = [], dirs = []\<rparr>)"
  by (simp add: fetchBookList_def fetchJson_def initial_world_def example_net_def
      example_books_def validateResponseHasItems_def)

text \<open>
  C3 (as amended). The memo cache is one slot, not keyed by translation id: once a fetch
  of the book list has succeeded, every later fetch in the run, with the same or with
  any other translation id, returns that list and leaves the world as it is, so that no
  request is made.
\<close>

theorem C3_cache_is_one_slot:
  assumes "fst (fetchBookList net t1 w) = Inr items"
  shows "fetchBookList net t2 (snd (fetchBookList net t1 w))
           = (Inr items, snd (fetchBookList net t1 w))"
  using assms by (rule fetchBookList_again)

theorem C3_cache_is_one_slot_witness:
  "fst (fetchBookList example_net ''100'' initial_world) = getprop example_books ''items''
   \<and> fetchBookList example_net ''100'' (snd (fetchBookList example_net ''100'' initial_world))
       = (getprop example_books ''items'', snd (fetchBookList example_net ''100'' initial_world))
   \<and> requests (snd (fetchBookList example_net ''100'' initial_world))
       = [''https://www.bible.com/json/bible/books/100'']"
proof -
  have e: "fst (fetchBookList example_net ''100'' initial_world) = getprop example_books ''items''"
    by (simp add: example_fetch_100 example_books_def)
  have g: "getprop example_books ''items'' = Inr (JArr
        [JObj [(''usfm'', JStr ''GEN''), (''human'', JStr ''Genesis'')],
         JObj [(''usfm'', JStr ''EXO''), (''human'', JStr ''Exodus'')],
         JObj [(''usfm'', JStr ''LEV''), (''human'', JStr ''Leviticus'')],
         JObj [(''usfm'', JStr ''1SA''), (''human'', JStr ''1 Samuel'')]])"
    by (simp add: example_books_def)
  from C3_cache_is_one_slot [OF e [unfolded g], of "''100''"] e g
  show ?thesis by (simp add: example_fetch_100)
qed

theorem C3_counterexample:
  "fetchBookList example_net ''101'' (snd (fetchBookList example_net ''100'' initial_world))
     = (getprop example_books ''items'', snd (fetchBookList example_net ''100'' initial_world))
   \<and> requests (snd (fetchBookList example_net ''100'' initial_world))
       = [''https://www.bible.com/json/bible/books/100'']
   \<and> example_net [''https://www.bible.com/json/bible/books/100'']
        ''https://www.bible.com/json/bible/books/101'' = Inr example_books_other
   \<and> getprop example_books_other ''items'' \<noteq> getprop example_books ''items''"
  by (simp add: example_fetch_100 fetchBookList_hit example_books_def example_books_other_def
      example_net_def)

text \<open>
  C5. A catalog response of status 200 whose body is the JSON text \<open>null\<close> does not fail
  with the unexpected-response error: reading \<open>items\<close> from \<open>null\<close> throws a
  \<open>TypeError\<close>. (Every other payload without an array under \<open>items\<close> fails as claimed,
  see \<open>fetchBookList_unexpected\<close>.)
\<close>

theorem C5_null_payload_type_error:
  "fst (fetchBookList (always JNull) ''100'' initial_world) = Inl TypeError
   \<and> validateResponseHasItems JNull = Inl TypeError"
  by (simp add: fetchBookList_def fetchJson_def initial_world_def always_def
      validateResponseHasItems_def)

section \<open>Resolving a book and naming its directory\<close>

lemma book_of_getprop:
  assumes "book_of item = Some (code, name)"
  shows "getprop item ''usfm'' = Inr (JStr code)" and "getprop item ''human'' = Inr (JStr name)"
  using assms
  by (auto simp: book_of_def split: jsval.splits option.splits)

lemma bookLine_book: "book_of item = Some b \<Longrightarrow> bookLine item = Inr (listed b)"
  by (cases b) (simp add: bookLine_def listed_def book_of_getprop)

lemma forEach_logLine_books:
  "map book_of items = map Some books \<Longrightarrow>
   forEach_logLine console_error items w = (Inr (), w\<lparr>stderr := stderr w @ map listed books\<rparr>)"
proof (induction items arbitrary: books w)
  case Nil
  then show ?case by simp
next
  case (Cons item items)
  then obtain b bs where b: "books = b # bs" "book_of item = Some b"
    "map book_of items = map Some bs"
    by (cases books) auto
  from Cons.IH [OF b(3)] b show ?case by (simp add: bookLine_book)
qed

lemma findIndex_usfm_absent:
  "map book_of items = map Some books \<Longrightarrow> bookId \<notin> fst ` set books \<Longrightarrow>
   findIndex_usfm bookId items = Inr None"
proof (induction items arbitrary: books)
  case Nil
  then show ?case by simp
next
  case (Cons item items)
  then obtain c n bs where b: "books = (c, n) # bs" "book_of item = Some (c, n)"
    "map book_of items = map Some bs"
    by (cases books) auto
  from Cons.prems(2) b(1) have "c \<noteq> bookId" "bookId \<notin> fst ` set bs" by auto
  with Cons.IH [OF b(3)] b(2) show ?case by (simp add: book_of_getprop)
qed

lemma findIndex_usfm_first:
  "map book_of items = map Some books \<Longrightarrow> i < length books \<Longrightarrow> fst (books ! i) = bookId \<Longrightarrow>
   (\<forall>j<i. fst (books ! j) \<noteq> bookId) \<Longrightarrow> findIndex_usfm bookId items = Inr (Some i)"
proof (induction items arbitrary: books i)
  case Nil
  then show ?case by simp
next
  case (Cons item items)
  then obtain c n bs where b: "books = (c, n) # bs" "book_of item = Some (c, n)"
    "map book_of items = map Some bs"
    by (cases books) auto
  show ?case
  proof (cases i)
    case 0
    with Cons.prems(3) b(1) have "c = bookId" by simp
    with b(2) 0 show ?thesis by (simp add: book_of_getprop)
  next
    case (Suc k)
    from Cons.prems(4) Suc b(1) have "c \<noteq> bookId" by fastforce
    moreover from Cons.prems(2) Suc b(1) have "k < length bs" by simp
    moreover from Cons.prems(3) Suc b(1) have "fst (bs ! k) = bookId" by simp
    moreover from Cons.prems(4) Suc b(1) have "\<forall>j<k. fst (bs ! j) \<noteq> bookId" by fastforce
    ultimately show ?thesis using Cons.IH [OF b(3), of k] b(2) Suc
      by (simp add: book_of_getprop)
  qed
qed

text \<open>A code that occurs in the list has a first occurrence, the one a lookup finds.\<close>

lemma first_occurrence:
  "bookId \<in> fst ` set books \<Longrightarrow>
   \<exists>i<length books. fst (books ! i) = bookId \<and> (\<forall>j<i. fst (books ! j) \<noteq> bookId)
      \<and> map_of books bookId = Some (snd (books ! i))"
proof (induction books)
  case Nil
  then show ?case by simp
next
  case (Cons b bs)
  show ?case
  proof (cases "fst b = bookId")
    case True
    then have "0 < length (b # bs) \<and> fst ((b # bs) ! 0) = bookId
        \<and> (\<forall>j<0. fst ((b # bs) ! j) \<noteq> bookId)
        \<and> map_of (b # bs) bookId = Some (snd ((b # bs) ! 0))"
      by (cases b) simp
    then show ?thesis by blast
  next
    case False
    with Cons.prems have "bookId \<in> fst ` set bs" by auto
    from Cons.IH [OF this] obtain i where i: "i < length bs" "fst (bs ! i) = bookId"
      "\<forall>j<i. fst (bs ! j) \<noteq> bookId" "map_of bs bookId = Some (snd (bs ! i))"
      by blast
    have "\<forall>j<Suc i. fst ((b # bs) ! j) \<noteq> bookId"
    proof (intro allI impI)
      fix j assume "j < Suc i"
      then show "fst ((b # bs) ! j) \<noteq> bookId" using False i(3) by (cases j) auto
    qed
    with i False have "Suc i < length (b # bs) \<and> fst ((b # bs) ! Suc i) = bookId
        \<and> (\<forall>j<Suc i. fst ((b # bs) ! j) \<noteq> bookId)
        \<and> map_of (b # bs) bookId = Some (snd ((b # bs) ! Suc i))"
      by (cases b) auto
    then show ?thesis by blast
  qed
qed

text \<open>The two ways to collapse whitespace agree.\<close>

lemma replace_whitespace_underscore_runs: "replace_whitespace s = underscore_runs s"
proof (induction s rule: underscore_runs.induct)
  case 1
  then show ?case by simp
next
  case (2 c)
  then show ?case by simp
next
  case (3 c d s)
  then show ?case by auto
qed

lemma underscore_not_space: "\<not> is_space CHR ''_''"
  by (simp add: is_space_def)

lemma underscore_runs_no_space: "list_all (\<lambda>c. \<not> is_space c) (underscore_runs s)"
  by (induction s rule: underscore_runs.induct) (simp_all add: underscore_not_space)

lemma underscore_runs_unchanged:
  "list_all (\<lambda>c. \<not> is_space c) s \<Longrightarrow> underscore_runs s = s"
  by (induction s rule: underscore_runs.induct) simp_all

text \<open>A run of whitespace between two words becomes one underscore.\<close>

lemma underscore_runs_between:
  assumes "list_all (\<lambda>c. \<not> is_space c) a" and "ws \<noteq> []" and "list_all is_space ws"
    and "\<not> is_space c"
  shows "underscore_runs (a @ ws @ c # s) = a @ CHR ''_'' # underscore_runs (c # s)"
proof -
  have run: "underscore_runs (ws @ c # s) = CHR ''_'' # underscore_runs (c # s)"
    using assms(2) assms(3)
  proof (induction ws)
    case Nil
    then show ?case by simp
  next
    case (Cons x xs)
    show ?case
    proof (cases xs)
      case Nil
      with Cons.prems assms(4) show ?thesis by simp
    next
      case (Cons y ys)
      with Cons.prems Cons.IH show ?thesis by simp
    qed
  qed
  have "underscore_runs (a @ t) = a @ underscore_runs t" if "t \<noteq> []" for t
    using assms(1) that
  proof (induction a)
    case Nil
    then show ?case by simp
  next
    case (Cons x xs)
    then show ?case by (cases "xs @ t") auto
  qed
  from this [of "ws @ c # s"] run show ?thesis by simp
qed

text \<open>Padding the decimal digits of a position to two characters.\<close>

lemma length_String_nat: "10 \<le> n \<Longrightarrow> 2 \<le> length (String_nat n)"
proof -
  assume "10 \<le> n"
  then have "String_nat n = String_nat (n div 10) @ [digit_char (n mod 10)]"
    by (subst String_nat.simps) simp
  moreover have "1 \<le> length (String_nat (n div 10))"
    using String_nat_not_Nil [of "n div 10"] by (cases "String_nat (n div 10)") simp_all
  ultimately show ?thesis by simp
qed

lemma padStart_two_digits: "padStart 2 CHR ''0'' (String_nat n) = two_digits n"
proof (cases "n < 10")
  case True
  then have "String_nat n = [digit_char n]" by (subst String_nat.simps) simp
  with True show ?thesis by (simp add: padStart_def two_digits_def)
next
  case False
  then have "2 \<le> length (String_nat n)" by (simp add: length_String_nat)
  with False show ?thesis by (simp add: padStart_def two_digits_def)
qed

lemma two_digits_small: "two_digits 3 = ''03''" "two_digits 4 = ''04''" "two_digits 12 = ''12''"
  by code_simp+

text \<open>What \<open>mkdir\<close> does with a list of well-formed books.\<close>

lemma mkdir_found:
  assumes "fst (fetchBookList net t w) = Inr (JArr items)"
    and "map book_of items = map Some books"
    and "i < length books" and "books ! i = (bookId, name)"
    and "\<forall>j<i. fst (books ! j) \<noteq> bookId"
  shows "mkdir net fs t bookId canonical w =
     (let d = (if canonical then two_digits (i + 1) @ ''-'' else []) @ underscore_runs name;
          w1 = logLine console_log (''Making directory '' @ d) (snd (fetchBookList net t w))
      in if fs d then (Inr d, w1\<lparr>dirs := dirs w1 @ [d]\<rparr>) else (Inl FsError, w1))"
proof -
  obtain r w1 where f: "fetchBookList net t w = (r, w1)" by (cases "fetchBookList net t w")
  with assms(1) have r: "r = Inr (JArr items)" by simp
  from assms(4) have "fst (books ! i) = bookId" by simp
  with assms have idx: "findIndex_usfm bookId items = Inr (Some i)"
    by (simp add: findIndex_usfm_first)
  from assms(2) have "length items = length books" by (metis length_map)
  with assms(2) assms(3) assms(4) have "book_of (items ! i) = Some (bookId, name)"
    by (metis nth_map)
  then have h: "getprop (items ! i) ''human'' = Inr (JStr name)" by (rule book_of_getprop)
  show ?thesis
    by (simp add: mkdir_def f r idx h Let_def padStart_two_digits
        replace_whitespace_underscore_runs)
qed

lemma mkdir_not_found:
  assumes "fst (fetchBookList net t w) = Inr (JArr items)"
    and "map book_of items = map Some books"
    and "bookId \<notin> fst ` set books"
  shows "mkdir net fs t bookId canonical w =
     (Inl (Error (''Did not find book id: '' @ bookId)),
      (snd (fetchBookList net t w))\<lparr>stderr := stderr w @ map listed books\<rparr>)"
proof -
  obtain r w1 where f: "fetchBookList net t w = (r, w1)" by (cases "fetchBookList net t w")
  with assms(1) have r: "r = Inr (JArr items)" by simp
  from assms have idx: "findIndex_usfm bookId items = Inr None"
    by (simp add: findIndex_usfm_absent)
  from fetchBookList_again [OF assms(1), of t] f r
  have again: "fetchBookList net t w1 = (Inr (JArr items), w1)" by simp
  from fetchBookList_stderr [of net t w] f have e: "stderr w1 = stderr w" by simp
  have p: "printBookList net t console_error w1
             = (Inr (), w1\<lparr>stderr := stderr w @ map listed books\<rparr>)"
    by (simp add: printBookList_def again forEach_logLine_books [OF assms(2)] e)
  show ?thesis by (simp add: mkdir_def f r idx p)
qed

lemma example_books_wellformed:
  "map book_of
     [JObj [(''usfm'', JStr ''GEN''), (''human'', JStr ''Genesis'')],
      JObj [(''usfm'', JStr ''EXO''), (''human'', JStr ''Exodus'')],
      JObj [(''usfm'', JStr ''LEV''), (''human'', JStr ''Leviticus'')],
      JObj [(''usfm'', JStr ''1SA''), (''human'', JStr ''1 Samuel'')]]
   = map Some [(''GEN'', ''Genesis''), (''EXO'', ''Exodus''), (''LEV'', ''Leviticus''),
        (''1SA'', ''1 Samuel'')]"
  by (simp add: book_of_def)

text \<open>
  C6. With a fetched list of well-formed books: for a code that is not in the list,
  \<open>mkdir\<close> fails with the error \<open>Did not find book id\<close>, after the line of every book of
  the list has been written to the error stream; for a code that is in the list, it
  takes the first entry with that code and returns the directory name made from that
  entry's human name, unless the directory cannot be made, and prints no list.
\<close>

theorem C6_book_resolution:
  assumes "fst (fetchBookList net t w) = Inr (JArr items)"
    and "map book_of items = map Some books"
  shows "if bookId \<in> fst ` set books
         then \<exists>name prefix.
                map_of books bookId = Some name
                \<and> fst (mkdir net fs t bookId canonical w)
                    = (if fs (prefix @ underscore_runs name)
                       then Inr (prefix @ underscore_runs name) else Inl FsError)
                \<and> stderr (snd (mkdir net fs t bookId canonical w)) = stderr w
         else fst (mkdir net fs t bookId canonical w)
                = Inl (Error (''Did not find book id: '' @ bookId))
              \<and> stderr (snd (mkdir net fs t bookId canonical w))
                  = stderr w @ map listed books"
proof (cases "bookId \<in> fst ` set books")
  case True
  from first_occurrence [OF True] obtain i where i: "i < length books"
    "fst (books ! i) = bookId" "\<forall>j<i. fst (books ! j) \<noteq> bookId"
    "map_of books bookId = Some (snd (books ! i))"
    by blast
  let ?name = "snd (books ! i)"
  let ?prefix = "if canonical then two_digits (i + 1) @ ''-'' else []"
  from i(2) have b: "books ! i = (bookId, ?name)" by (cases "books ! i") simp
  have m: "mkdir net fs t bookId canonical w =
     (let d = ?prefix @ underscore_runs ?name;
          w1 = logLine console_log (''Making directory '' @ d) (snd (fetchBookList net t w))
      in if fs d then (Inr d, w1\<lparr>dirs := dirs w1 @ [d]\<rparr>) else (Inl FsError, w1))"
    by (rule mkdir_found [OF assms i(1) b i(3)])
  have "fst (mkdir net fs t bookId canonical w)
          = (if fs (?prefix @ underscore_runs ?name)
             then Inr (?prefix @ underscore_runs ?name) else Inl FsError)"
    unfolding m by (simp add: Let_def)
  moreover have "stderr (snd (mkdir net fs t bookId canonical w)) = stderr w"
    unfolding m by (simp add: Let_def fetchBookList_stderr)
  ultimately have "\<exists>name prefix.
                map_of books bookId = Some name
                \<and> fst (mkdir net fs t bookId canonical w)
                    = (if fs (prefix @ underscore_runs name)
                       then Inr (prefix @ underscore_runs name) else Inl FsError)
                \<and> stderr (snd (mkdir net fs t bookId canonical w)) = stderr w"
    using i(4) by blast
  then show ?thesis by (simp only: True if_True)
next
  case False
  from mkdir_not_found [OF assms False, of fs canonical]
  have "fst (mkdir net fs t bookId canonical w)
                = Inl (Error (''Did not find book id: '' @ bookId))
              \<and> stderr (snd (mkdir net fs t bookId canonical w))
                  = stderr w @ map listed books"
    by simp
  then show ?thesis by (simp only: False if_False)
qed

theorem C6_book_resolution_witness:
  "fst (mkdir example_net any_directory ''100'' ''PSA'' False initial_world)
     = Inl (Error ''Did not find book id: PSA'')
   \<and> stderr (snd (mkdir example_net any_directory ''100'' ''PSA'' False initial_world))
       = [listed (''GEN'', ''Genesis''), listed (''EXO'', ''Exodus''),
          listed (''LEV'', ''Leviticus''), listed (''1SA'', ''1 Samuel'')]
   \<and> (\<exists>prefix. fst (mkdir example_net any_directory ''100'' ''EXO'' False initial_world)
                 = Inr (prefix @ ''Exodus''))"
proof -
  have f: "fst (fetchBookList example_net ''100'' initial_world) = Inr (JArr
        [JObj [(''usfm'', JStr ''GEN''), (''human'', JStr ''Genesis'')],
         JObj [(''usfm'', JStr ''EXO''), (''human'', JStr ''Exodus'')],
         JObj [(''usfm'', JStr ''LEV''), (''human'', JStr ''Leviticus'')],
         JObj [(''usfm'', JStr ''1SA''), (''human'', JStr ''1 Samuel'')]])"
    by (simp add: example_fetch_100)
  have s: "stderr initial_world = []" by (simp add: initial_world_def)
  from C6_book_resolution [OF f example_books_wellformed, where bookId = "''PSA''"
      and fs = any_directory and canonical = False]
  have absent: "fst (mkdir example_net any_directory ''100'' ''PSA'' False initial_world)
     = Inl (Error ''Did not find book id: PSA'')
   \<and> stderr (snd (mkdir example_net any_directory ''100'' ''PSA'' False initial_world))
       = [listed (''GEN'', ''Genesis''), listed (''EXO'', ''Exodus''),
          listed (''LEV'', ''Leviticus''), listed (''1SA'', ''1 Samuel'')]"
    by (simp add: s)
  from C6_book_resolution [OF f example_books_wellformed, where bookId = "''EXO''"
      and fs = any_directory and canonical = False]
  have "\<exists>prefix. fst (mkdir example_net any_directory ''100'' ''EXO'' False initial_world)
                 = Inr (prefix @ ''Exodus'')"
    by (simp add: any_directory_def is_space_def)
  with absent show ?thesis by blast
qed

text \<open>
  C10. The directory name of the book at position \<open>i\<close> of the list (counted from 0, the
  first entry with the requested code) is its human name with every run of whitespace
  collapsed to one underscore; in canonical mode it is prefixed with the position
  \<open>i + 1\<close> in at least two digits, zero-padded, and a dash.
\<close>

theorem C10_directory_name:
  assumes "fst (fetchBookList net t w) = Inr (JArr items)"
    and "map book_of items = map Some books"
    and "i < length books" and "books ! i = (bookId, name)"
    and "\<forall>j<i. fst (books ! j) \<noteq> bookId"
    and "fs ((if canonical then two_digits (i + 1) @ ''-'' else []) @ underscore_runs name)"
  shows "fst (mkdir net fs t bookId canonical w)
           = Inr ((if canonical then two_digits (i + 1) @ ''-'' else []) @ underscore_runs name)"
  using assms(6) unfolding mkdir_found [OF assms(1-5)] by (simp add: Let_def)

theorem C10_directory_name_witness:
  "fst (mkdir example_net any_directory ''100'' ''LEV'' True initial_world) = Inr ''03-Leviticus''
   \<and> fst (mkdir example_net any_directory ''100'' ''1SA'' False initial_world) = Inr ''1_Samuel''
   \<and> fst (mkdir example_net any_directory ''100'' ''1SA'' True initial_world) = Inr ''04-1_Samuel''"
proof -
  have f: "fst (fetchBookList example_net ''100'' initial_world) = Inr (JArr
        [JObj [(''usfm'', JStr ''GEN''), (''human'', JStr ''Genesis'')],
         JObj [(''usfm'', JStr ''EXO''), (''human'', JStr ''Exodus'')],
         JObj [(''usfm'', JStr ''LEV''), (''human'', JStr ''Leviticus'')],
         JObj [(''usfm'', JStr ''1SA''), (''human'', JStr ''1 Samuel'')]])"
    by (simp add: example_fetch_100)
  let ?books = "[(''GEN'', ''Genesis''), (''EXO'', ''Exodus''), (''LEV'', ''Leviticus''),
        (''1SA'', ''1 Samuel'')]"
  have lev: "(2::nat) < length ?books" "?books ! 2 = (''LEV'', ''Leviticus'')"
    "\<forall>j<2. fst (?books ! j) \<noteq> ''LEV''"
    by (simp_all add: less_Suc_eq numeral_2_eq_2)
  have sam: "(3::nat) < length ?books" "?books ! 3 = (''1SA'', ''1 Samuel'')"
    "\<forall>j<3. fst (?books ! j) \<noteq> ''1SA''"
    by (simp_all add: less_Suc_eq numeral_3_eq_3)
  from C10_directory_name [where fs = any_directory and canonical = True,
      OF f example_books_wellformed lev]
  have 1: "fst (mkdir example_net any_directory ''100'' ''LEV'' True initial_world)
             = Inr ''03-Leviticus''"
    by (simp add: two_digits_small any_directory_def is_space_def)
  from C10_directory_name [where fs = any_directory and canonical = False,
      OF f example_books_wellformed sam]
  have 2: "fst (mkdir example_net any_directory ''100'' ''1SA'' False initial_world)
             = Inr ''1_Samuel''"
    by (simp add: any_directory_def is_space_def)
  from C10_directory_name [where fs = any_directory and canonical = True,
      OF f example_books_wellformed sam]
  have 3: "fst (mkdir example_net any_directory ''100'' ''1SA'' True initial_world)
             = Inr ''04-1_Samuel''"
    by (simp add: two_digits_small any_directory_def is_space_def)
  from 1 2 3 show ?thesis by simp
qed

section \<open>Chapter metadata\<close>

lemma startsWith_iff: "startsWith s p \<longleftrightarrow> (\<exists>rest. s = p @ rest)"
proof
  assume "startsWith s p"
  then have "s = p @ drop (length p) s"
    unfolding startsWith_def by (metis append_take_drop_id)
  then show "\<exists>rest. s = p @ rest" ..
next
  assume "\<exists>rest. s = p @ rest"
  then show "startsWith s p" by (auto simp: startsWith_def)
qed

lemma first_audio_url_SomeD:
  assumes "first_audio_url json = Some f"
  shows "\<exists>kvs entry rest urls. json = JObj kvs
           \<and> map_of kvs ''audio'' = Some (JArr (JObj entry # rest))
           \<and> map_of entry ''download_urls'' = Some (JObj urls)
           \<and> map_of urls ''format_mp3_32k'' = Some f"
  using assms
  by (auto simp: first_audio_url_def split: jsval.splits option.splits list.splits)

lemma chapter_name_SomeD:
  assumes "chapter_name json = Some h"
  shows "\<exists>kvs r. json = JObj kvs \<and> map_of kvs ''reference'' = Some (JObj r)
           \<and> map_of r ''human'' = Some h \<and> truthy h"
  using assms
  by (auto simp: chapter_name_def reference_human_def
      split: jsval.splits option.splits if_splits)

text \<open>A response that has a URL string and a chapter name passes, and is used as it is.\<close>

lemma validateMetadataResponse_ok:
  assumes "first_audio_url json = Some (JStr u)" and "u \<noteq> []" and "chapter_name json = Some h"
  shows "validateMetadataResponse json = Inr ()"
proof -
  from first_audio_url_SomeD [OF assms(1)] obtain kvs entry rest urls where
    a: "json = JObj kvs" "map_of kvs ''audio'' = Some (JArr (JObj entry # rest))"
       "map_of entry ''download_urls'' = Some (JObj urls)"
       "map_of urls ''format_mp3_32k'' = Some (JStr u)"
    by blast
  from chapter_name_SomeD [OF assms(3)] a(1) obtain r where
    b: "map_of kvs ''reference'' = Some (JObj r)" "map_of r ''human'' = Some h" "truthy h"
    by auto
  show ?thesis using a b assms(2) by (simp add: validateMetadataResponse_def)
qed

lemma fetchMetadata_ok:
  assumes "net (requests w)
             (''https://nodejs.bible.com/api/bible/chapter/3.1?'' @ ''id='' @ t @
              ''&reference='' @ bk @ ''.'' @ ch) = Inr json"
    and "first_audio_url json = Some (JStr u)" and "u \<noteq> []" and "chapter_name json = Some h"
  shows "fst (fetchMetadata net t bk ch w)
           = Inr \<lparr>audioUrl = (if startsWith u ''//'' then ''https:'' @ u else u),
                  chapterName = h\<rparr>"
proof -
  from first_audio_url_SomeD [OF assms(2)] obtain kvs entry rest urls where
    a: "json = JObj kvs" "map_of kvs ''audio'' = Some (JArr (JObj entry # rest))"
       "map_of entry ''download_urls'' = Some (JObj urls)"
       "map_of urls ''format_mp3_32k'' = Some (JStr u)"
    by blast
  from chapter_name_SomeD [OF assms(4)] a(1) obtain r where
    b: "map_of kvs ''reference'' = Some (JObj r)" "map_of r ''human'' = Some h" "truthy h"
    by auto
  have v: "validateMetadataResponse (JObj kvs) = Inr ()"
    using validateMetadataResponse_ok [OF assms(2) assms(3) assms(4)] a(1) by simp
  show ?thesis
    using assms(1) a(1)
    by (simp add: fetchMetadata_def fetchJson_def Let_def v a b)
qed

text \<open>
  A response that is not \<open>null\<close>, whose first audio entry is not \<open>null\<close> and whose value
  under the key is a string when it is truthy, and that lacks the URL string or the
  chapter name, is refused.
\<close>

lemma validateMetadataResponse_unexpected:
  assumes "json \<noteq> JNull" and "json \<noteq> JUndefined"
    and "first_audio_entry json \<noteq> Some JNull" and "first_audio_entry json \<noteq> Some JUndefined"
    and "\<forall>f. first_audio_url json = Some f \<longrightarrow> truthy f \<longrightarrow> (\<exists>u. f = JStr u)"
    and "audio_url_string json = None \<or> chapter_name json = None"
  shows "validateMetadataResponse json = Inl (UnexpectedResponse json)"
proof (cases json)
  case (JObj kvs)
  show ?thesis
  proof (cases "map_of kvs ''audio''")
    case None
    with JObj show ?thesis by (simp add: validateMetadataResponse_def)
  next
    case (Some audio)
    show ?thesis
    proof (cases audio)
      case (JArr entries)
      show ?thesis
      proof (cases entries)
        case Nil
        with JObj Some JArr show ?thesis by (simp add: validateMetadataResponse_def)
      next
        case (Cons entry rest)
        have fe: "first_audio_entry json = Some entry"
          using JObj Some JArr Cons by (simp add: first_audio_entry_def)
        with assms(3) assms(4) have en: "entry \<noteq> JNull" "entry \<noteq> JUndefined" by auto
        then obtain d where d: "getprop entry ''download_urls'' = Inr d"
          using getprop_defined by blast
        show ?thesis
        proof (cases "truthy d")
          case False
          with JObj Some JArr Cons d show ?thesis by (simp add: validateMetadataResponse_def)
        next
          case True
          then have dn: "d \<noteq> JNull" "d \<noteq> JUndefined" by auto
          then obtain f where f: "getprop d ''format_mp3_32k'' = Inr f"
            using getprop_defined by blast
          show ?thesis
          proof (cases "truthy f")
            case False
            with JObj Some JArr Cons d True f show ?thesis
              by (simp add: validateMetadataResponse_def)
          next
            case tf: True
            then have "f \<noteq> JUndefined" by auto
            with f obtain urls where u: "d = JObj urls" "map_of urls ''format_mp3_32k'' = Some f"
              by (cases d) (auto split: option.splits)
            with d en obtain ekvs where e: "entry = JObj ekvs"
              "map_of ekvs ''download_urls'' = Some (JObj urls)"
              by (cases entry) (auto split: option.splits)
            have fa: "first_audio_url json = Some f"
              using JObj Some JArr Cons e u by (simp add: first_audio_url_def)
            with assms(5) tf obtain s where s: "f = JStr s" by blast
            with tf have sn: "s \<noteq> []" by simp
            from fa s sn have "audio_url_string json = Some s"
              by (simp add: audio_url_string_def)
            with assms(6) have cn: "chapter_name json = None" by simp
            have g: "getprop json ''audio'' = Inr (JArr (entry # rest))"
              using JObj Some JArr Cons by simp
            obtain r where r: "getprop json ''reference'' = Inr r"
              using assms(1) assms(2) getprop_defined by blast
            show ?thesis
            proof (cases "truthy r")
              case False
              with g d True f tf r show ?thesis by (simp add: validateMetadataResponse_def)
            next
              case tr: True
              then have "r \<noteq> JNull" "r \<noteq> JUndefined" by auto
              then obtain h where h: "getprop r ''human'' = Inr h"
                using getprop_defined by blast
              have "\<not> truthy h"
              proof
                assume th: "truthy h"
                then have "h \<noteq> JUndefined" by auto
                with h obtain rk where rk: "r = JObj rk" "map_of rk ''human'' = Some h"
                  by (cases r) (auto split: option.splits)
                with r JObj have "map_of kvs ''reference'' = Some (JObj rk)"
                  by (auto split: option.splits)
                with rk th JObj have "chapter_name json = Some h"
                  by (simp add: chapter_name_def reference_human_def)
                with cn show False by simp
              qed
              with g d True f tf r tr h show ?thesis
                by (simp add: validateMetadataResponse_def)
            qed
          qed
        qed
      qed
    qed (use JObj Some in \<open>simp_all add: validateMetadataResponse_def\<close>)
  qed
qed (use assms(1) assms(2) in \<open>simp_all add: validateMetadataResponse_def\<close>)

lemma fetchMetadata_unexpected:
  assumes "net (requests w)
             (''https://nodejs.bible.com/api/bible/chapter/3.1?'' @ ''id='' @ t @
              ''&reference='' @ bk @ ''.'' @ ch) = Inr json"
    and "validateMetadataResponse json = Inl e"
  shows "fst (fetchMetadata net t bk ch w) = Inl e"
  using assms by (simp add: fetchMetadata_def fetchJson_def Let_def)

lemma example_metadata_shape:
  "first_audio_url (example_metadata u) = Some (JStr u)"
  "chapter_name (example_metadata u) = Some (JStr ''Psalms 25'')"
  by (simp_all add: example_metadata_def first_audio_url_def chapter_name_def
      reference_human_def)

lemma example_net_metadata:
  "example_net h (''https://nodejs.bible.com/api/bible/chapter/3.1?'' @ ''id='' @ ''100'' @
              ''&reference='' @ ''PSA'' @ ''.'' @ ''25'')
     = Inr (example_metadata ''//cdn.example/PSA.25.mp3'')"
  by (simp add: example_net_def)

text \<open>
  C4 (as amended). For every metadata response other than \<open>null\<close>, whose first audio
  entry is not \<open>null\<close> and whose value under the bitrate/format key is a string when it
  is truthy: if the response has no non-empty audio list, or the first audio entry has
  no download-URL map with a non-empty string under the key, or the response has no
  reference with a truthy human name, then \<open>fetchMetadata\<close> fails with the
  unexpected-response error that carries the payload; otherwise it succeeds. The audio
  entries after the first are not inspected.
\<close>

theorem C4_metadata_validation:
  assumes "net (requests w)
             (''https://nodejs.bible.com/api/bible/chapter/3.1?'' @ ''id='' @ t @
              ''&reference='' @ bk @ ''.'' @ ch) = Inr json"
    and "json \<noteq> JNull" and "json \<noteq> JUndefined"
    and "first_audio_entry json \<noteq> Some JNull" and "first_audio_entry json \<noteq> Some JUndefined"
    and "\<forall>f. first_audio_url json = Some f \<longrightarrow> truthy f \<longrightarrow> (\<exists>u. f = JStr u)"
  shows "if audio_url_string json = None \<or> chapter_name json = None
         then fst (fetchMetadata net t bk ch w) = Inl (UnexpectedResponse json)
         else \<exists>m. fst (fetchMetadata net t bk ch w) = Inr m"
proof (cases "audio_url_string json = None \<or> chapter_name json = None")
  case True
  from validateMetadataResponse_unexpected [OF assms(2-6) True]
  have "fst (fetchMetadata net t bk ch w) = Inl (UnexpectedResponse json)"
    by (rule fetchMetadata_unexpected
        [where net = net and w = w and t = t and bk = bk and ch = ch, OF assms(1)])
  then show ?thesis by (simp only: True if_True)
next
  case False
  then obtain u h where u: "audio_url_string json = Some u" and h: "chapter_name json = Some h"
    by auto
  from u have "first_audio_url json = Some (JStr u)" "u \<noteq> []"
    by (auto simp: audio_url_string_def split: option.splits jsval.splits if_splits)
  from fetchMetadata_ok
    [where net = net and w = w and t = t and bk = bk and ch = ch, OF assms(1) this h]
  have "\<exists>m. fst (fetchMetadata net t bk ch w) = Inr m" by blast
  then show ?thesis by (simp only: False if_False)
qed

theorem C4_metadata_validation_witness:
  "fst (fetchMetadata (always example_metadata_no_reference) ''100'' ''PSA'' ''25'' initial_world)
     = Inl (UnexpectedResponse example_metadata_no_reference)
   \<and> (\<exists>m. fst (fetchMetadata (always (example_metadata ''//cdn.example/PSA.25.mp3''))
                 ''100'' ''PSA'' ''25'' initial_world) = Inr m)
   \<and> fst (fetchMetadata (always (JObj [(''audio'', JArr [])])) ''100'' ''PSA'' ''25''
            initial_world)
       = Inl (UnexpectedResponse (JObj [(''audio'', JArr [])]))"
proof -
  have a: "always json (requests initial_world)
             (''https://nodejs.bible.com/api/bible/chapter/3.1?'' @ ''id='' @ ''100'' @
              ''&reference='' @ ''PSA'' @ ''.'' @ ''25'') = Inr json" for json
    by (simp add: always_def)
  have 1: "fst (fetchMetadata (always example_metadata_no_reference) ''100'' ''PSA'' ''25''
                  initial_world)
             = Inl (UnexpectedResponse example_metadata_no_reference)"
    using C4_metadata_validation [where net = "always example_metadata_no_reference" and w = initial_world
        and t = "''100''" and bk = "''PSA''" and ch = "''25''", OF a]
    by (simp add: example_metadata_no_reference_def first_audio_entry_def first_audio_url_def
        audio_url_string_def chapter_name_def reference_human_def)
  have 2: "\<exists>m. fst (fetchMetadata (always (example_metadata ''//cdn.example/PSA.25.mp3''))
                 ''100'' ''PSA'' ''25'' initial_world) = Inr m"
    using C4_metadata_validation [where net = "always (example_metadata ''//cdn.example/PSA.25.mp3'')" and w = initial_world
        and t = "''100''" and bk = "''PSA''" and ch = "''25''", OF a]
    by (simp add: example_metadata_def first_audio_entry_def first_audio_url_def
        audio_url_string_def chapter_name_def reference_human_def)
  have 3: "fst (fetchMetadata (always (JObj [(''audio'', JArr [])])) ''100'' ''PSA'' ''25''
            initial_world)
       = Inl (UnexpectedResponse (JObj [(''audio'', JArr [])]))"
    using C4_metadata_validation [where net = "always (JObj [(''audio'', JArr [])])" and w = initial_world
        and t = "''100''" and bk = "''PSA''" and ch = "''25''", OF a]
    by (simp add: first_audio_entry_def first_audio_url_def
        audio_url_string_def chapter_name_def reference_human_def)
  from 1 2 3 show ?thesis by blast
qed

theorem C4_counterexample:
  "fst (fetchMetadata (always example_metadata_bare_second) ''100'' ''PSA'' ''25'' initial_world)
     = Inr \<lparr>audioUrl = ''https://cdn.example/PSA.25.mp3'', chapterName = JStr ''Psalms 25''\<rparr>
   \<and> getprop example_metadata_bare_second ''audio''
       = Inr (JArr [JObj [(''download_urls'',
                           JObj [(''format_mp3_32k'', JStr ''//cdn.example/PSA.25.mp3'')])],
                    JObj []])
   \<and> getprop (JObj []) ''download_urls'' = Inr JUndefined
   \<and> fst (fetchMetadata (always example_metadata_no_reference) ''100'' ''PSA'' ''25''
            initial_world)
       = Inl (UnexpectedResponse example_metadata_no_reference)
   \<and> first_audio_url example_metadata_no_reference = Some (JStr ''//cdn.example/PSA.25.mp3'')"
  by (simp add: fetchMetadata_def fetchJson_def always_def initial_world_def
      validateMetadataResponse_def example_metadata_bare_second_def
      example_metadata_no_reference_def first_audio_url_def startsWith_def)

text \<open>
  C9. When the response carries a download URL (a non-empty string) and a chapter name,
  the URL that \<open>fetchMetadata\<close> returns is that string with \<open>https:\<close> put before it when
  it begins with \<open>//\<close>, and that string unchanged otherwise.
\<close>

theorem C9_audio_url_normalised:
  assumes "net (requests w)
             (''https://nodejs.bible.com/api/bible/chapter/3.1?'' @ ''id='' @ t @
              ''&reference='' @ bk @ ''.'' @ ch) = Inr json"
    and "first_audio_url json = Some (JStr u)" and "u \<noteq> []" and "chapter_name json = Some h"
  shows "fst (fetchMetadata net t bk ch w)
           = Inr \<lparr>audioUrl = (if \<exists>rest. u = ''//'' @ rest then ''https:'' @ u else u),
                  chapterName = h\<rparr>"
  using fetchMetadata_ok
    [where net = net and w = w and t = t and bk = bk and ch = ch, OF assms]
  by (simp only: startsWith_iff)

theorem C9_audio_url_normalised_witness:
  "fst (fetchMetadata example_net ''100'' ''PSA'' ''25'' initial_world)
     = Inr \<lparr>audioUrl = ''https://cdn.example/PSA.25.mp3'', chapterName = JStr ''Psalms 25''\<rparr>
   \<and> fst (fetchMetadata (always (example_metadata ''http://cdn.example/PSA.25.mp3''))
            ''100'' ''PSA'' ''25'' initial_world)
     = Inr \<lparr>audioUrl = ''http://cdn.example/PSA.25.mp3'', chapterName = JStr ''Psalms 25''\<rparr>"
proof -
  have 1: "fst (fetchMetadata example_net ''100'' ''PSA'' ''25'' initial_world)
     = Inr \<lparr>audioUrl = ''https://cdn.example/PSA.25.mp3'', chapterName = JStr ''Psalms 25''\<rparr>"
    using C9_audio_url_normalised [where net = example_net and w = initial_world
        and t = "''100''" and bk = "''PSA''" and ch = "''25''",
        OF example_net_metadata example_metadata_shape(1) _ example_metadata_shape(2)]
    by simp
  have a: "always json (requests initial_world)
             (''https://nodejs.bible.com/api/bible/chapter/3.1?'' @ ''id='' @ ''100'' @
              ''&reference='' @ ''PSA'' @ ''.'' @ ''25'') = Inr json" for json
    by (simp add: always_def)
  have 2: "fst (fetchMetadata (always (example_metadata ''http://cdn.example/PSA.25.mp3''))
            ''100'' ''PSA'' ''25'' initial_world)
     = Inr \<lparr>audioUrl = ''http://cdn.example/PSA.25.mp3'', chapterName = JStr ''Psalms 25''\<rparr>"
    using C9_audio_url_normalised
        [where net = "always (example_metadata ''http://cdn.example/PSA.25.mp3'')"
        and w = initial_world and t = "''100''" and bk = "''PSA''" and ch = "''25''",
        OF a example_metadata_shape(1) _ example_metadata_shape(2)]
    by simp
  from 1 2 show ?thesis by blast
qed

end
